theory Spec2Isabelle
  imports Complex_Main
begin

section \<open>Revenue management: a three-period Monte Carlo evaluator\<close>

text \<open>
  A shallow embedding of \<^verbatim>\<open>revenue_management_problem.py\<close>. Python's floats are
  read as real numbers (no rounding, no infinities), Python's unbounded integers as
  \<open>int\<close>. The process-wide random source of the \<^verbatim>\<open>random\<close> module is an explicit
  state that every sampling function takes and returns. Every exception the source can
  raise is a value of \<open>error\<close>, returned together with the state of the random source
  at the moment of the raise.
\<close>

subsection \<open>Errors and the random source\<close>

datatype error = ValueError | IndexError | ZeroDivisionError

text \<open>
  The random source: the sequence of uniform variates that \<^verbatim>\<open>random.random()\<close> will
  return, and the number of them consumed so far. A call returns the next one and
  advances the position. The library promises variates in \<open>[0, 1)\<close>; \<open>rng_ok\<close> says
  so.
\<close>

record rng =
  draws :: "nat \<Rightarrow> real"
  pos :: nat

definition random_random :: "rng \<Rightarrow> real \<times> rng" where
  "random_random g = (draws g (pos g), g\<lparr>pos := pos g + 1\<rparr>)"

definition rng_ok :: "rng \<Rightarrow> bool" where
  "rng_ok g = (\<forall>i. 0 \<le> draws g i \<and> draws g i < 1)"

text \<open>
  \<^verbatim>\<open>random.randint(a, b)\<close>: an integer \<open>N\<close> with \<open>a \<le> N \<le> b\<close>, or ValueError for an
  empty range (raised before anything is drawn). The library's own algorithm is not
  part of the repository; here the integer is read off one uniform variate.
\<close>

definition randint :: "int \<Rightarrow> int \<Rightarrow> rng \<Rightarrow> (error + int) \<times> rng" where
  "randint a b g =
     (if b < a then (Inl ValueError, g)
      else (case random_random g of
              (u, g') \<Rightarrow> (Inr (a + \<lfloor>u * real_of_int (b - a + 1)\<rfloor>), g')))"

subsection \<open>The variate generators\<close>

text \<open>
  \<^verbatim>\<open>
  def exponential_sample(rate_param=1.0):
      u = random.random()
      return math.log(1 - u) / (-rate_param)
  \<close>
  \<^verbatim>\<open>math.log\<close> raises ValueError outside its domain, the division raises
  ZeroDivisionError; both after the draw.
\<close>

definition exponential_sample :: "real \<Rightarrow> rng \<Rightarrow> (error + real) \<times> rng" where
  "exponential_sample rate_param g =
     (case random_random g of
        (u, g') \<Rightarrow>
          if 1 - u \<le> 0 then (Inl ValueError, g')
          else if - rate_param = 0 then (Inl ZeroDivisionError, g')
          else (Inr (ln (1 - u) / (- rate_param)), g'))"

text \<open>
  \<^verbatim>\<open>
  def gamma_sample(scale_param=1.0):
      return exponential_sample(scale_param)
  \<close>
\<close>

definition gamma_sample :: "real \<Rightarrow> rng \<Rightarrow> (error + real) \<times> rng" where
  "gamma_sample scale_param g = exponential_sample scale_param g"

subsection \<open>The problem instance\<close>

record problem =
  nb_periods :: int
  prices :: "int list"
  mean_demands :: "int list"
  purchase_price :: int
  nb_simulations :: int
  seed :: int

definition init :: "int \<Rightarrow> problem" where
  "init s = \<lparr>nb_periods = 3, prices = [100, 300, 400], mean_demands = [50, 20, 30],
             purchase_price = 80, nb_simulations = 100, seed = s\<rparr>"

text \<open>
  The period parameters as the constructor sets them; the number of simulations and the
  seed are left free.
\<close>

definition configured :: "problem \<Rightarrow> bool" where
  "configured self =
     (nb_periods self = 3 \<and> prices self = [100, 300, 400] \<and>
      mean_demands self = [50, 20, 30] \<and> purchase_price self = 80)"

subsection \<open>Python's list indexing and integer conversion\<close>

text \<open>\<open>xs[i]\<close> for a non-negative index: IndexError when out of range.\<close>

definition getitem :: "'a list \<Rightarrow> nat \<Rightarrow> error + 'a" where
  "getitem xs i = (if i < length xs then Inr (xs ! i) else Inl IndexError)"

text \<open>\<open>int(x)\<close> of a float: truncation toward zero.\<close>

definition py_int :: "real \<Rightarrow> int" where
  "py_int x = (if 0 \<le> x then \<lfloor>x\<rfloor> else \<lceil>x\<rceil>)"

subsection \<open>The evaluator\<close>

text \<open>
  Line 84, \<^verbatim>\<open>Y = [exponential_sample() for _ in range(self.nb_periods)]\<close>: the
  variates are drawn one after the other.
\<close>

fun sample_Y :: "nat \<Rightarrow> rng \<Rightarrow> (error + real list) \<times> rng" where
  "sample_Y 0 g = (Inr [], g)"
| "sample_Y (Suc k) g =
     (case exponential_sample 1 g of
        (Inl e, g') \<Rightarrow> (Inl e, g')
      | (Inr y, g') \<Rightarrow>
          (case sample_Y k g' of
             (Inl e, g'') \<Rightarrow> (Inl e, g'')
           | (Inr ys, g'') \<Rightarrow> (Inr (y # ys), g'')))"

text \<open>
  Lines 88 to 91 of the period loop: the demand of period \<open>j\<close> and the units sold out
  of the remaining stock.
  \<^verbatim>\<open>
  demand = int(self.mean_demands[j] * X * Y[j])
  available = max(remaining - reserves[j], 0)
  units_sold = min(available, demand)
  \<close>
\<close>

definition period_sale ::
  "problem \<Rightarrow> int list \<Rightarrow> real \<Rightarrow> real list \<Rightarrow> nat \<Rightarrow> int \<Rightarrow> error + int" where
  "period_sale self reserves X Y j remaining =
     (case getitem (mean_demands self) j of
        Inl e \<Rightarrow> Inl e
      | Inr md \<Rightarrow>
          (case getitem Y j of
             Inl e \<Rightarrow> Inl e
           | Inr y \<Rightarrow>
               (case getitem reserves j of
                  Inl e \<Rightarrow> Inl e
                | Inr r \<Rightarrow>
                    (let demand = py_int (real_of_int md * X * y);
                         available = max (remaining - r) 0;
                         units_sold = min available demand
                     in Inr units_sold))))"

text \<open>
  Lines 92 and 93: the state of the loop is the remaining stock and the running sum of
  profits.
  \<^verbatim>\<open>
  remaining -= units_sold
  sum_profit += self.prices[j] * units_sold
  \<close>
\<close>

definition period_step ::
  "problem \<Rightarrow> int list \<Rightarrow> real \<Rightarrow> real list \<Rightarrow> nat \<Rightarrow> int \<times> real \<Rightarrow> error + int \<times> real" where
  "period_step self reserves X Y j st =
     (case st of
        (remaining, sum_profit) \<Rightarrow>
          (case period_sale self reserves X Y j remaining of
             Inl e \<Rightarrow> Inl e
           | Inr units_sold \<Rightarrow>
               (case getitem (prices self) j of
                  Inl e \<Rightarrow> Inl e
                | Inr price \<Rightarrow>
                    Inr (remaining - units_sold,
                         sum_profit + real_of_int (price * units_sold)))))"

text \<open>The loop \<^verbatim>\<open>for j in range(self.nb_periods)\<close> over the periods it is given.\<close>

fun period_loop ::
  "problem \<Rightarrow> int list \<Rightarrow> real \<Rightarrow> real list \<Rightarrow> nat list \<Rightarrow> int \<times> real \<Rightarrow> error + int \<times> real" where
  "period_loop self reserves X Y [] st = Inr st"
| "period_loop self reserves X Y (j # js) st =
     (case period_step self reserves X Y j st of
        Inl e \<Rightarrow> Inl e
      | Inr st' \<Rightarrow> period_loop self reserves X Y js st')"

text \<open>
  The loop \<^verbatim>\<open>for _ in range(self.nb_simulations)\<close>, lines 80 to 93: each round draws
  \<open>X\<close>, then \<open>Y\<close>, resets the remaining stock to the purchase and runs the periods.
\<close>

fun simulation_loop ::
  "problem \<Rightarrow> int \<Rightarrow> int list \<Rightarrow> nat \<Rightarrow> real \<Rightarrow> rng \<Rightarrow> (error + real) \<times> rng" where
  "simulation_loop self purchase reserves 0 sum_profit g = (Inr sum_profit, g)"
| "simulation_loop self purchase reserves (Suc k) sum_profit g =
     (case gamma_sample 1 g of
        (Inl e, g1) \<Rightarrow> (Inl e, g1)
      | (Inr X, g1) \<Rightarrow>
          (case sample_Y (nat (nb_periods self)) g1 of
             (Inl e, g2) \<Rightarrow> (Inl e, g2)
           | (Inr Y, g2) \<Rightarrow>
               (case period_loop self reserves X Y [0..<nat (nb_periods self)]
                       (purchase, sum_profit) of
                  Inl e \<Rightarrow> (Inl e, g2)
                | Inr (remaining, sum_profit') \<Rightarrow>
                    simulation_loop self purchase reserves k sum_profit' g2)))"

text \<open>
  Line 73, \<^verbatim>\<open>candidate[1] > candidate[0] or candidate[2] > candidate[1]\<close>, with
  Python's left-to-right, short-circuit evaluation.
\<close>

definition infeasible :: "int list \<Rightarrow> error + bool" where
  "infeasible candidate =
     (case getitem candidate 1 of
        Inl e \<Rightarrow> Inl e
      | Inr c1 \<Rightarrow>
          (case getitem candidate 0 of
             Inl e \<Rightarrow> Inl e
           | Inr c0 \<Rightarrow>
               if c1 > c0 then Inr True
               else (case getitem candidate 2 of
                       Inl e \<Rightarrow> Inl e
                     | Inr c2 \<Rightarrow> Inr (c2 > c1))))"

text \<open>
  \<^verbatim>\<open>evaluate_solution(self, candidate)\<close>, lines 65 to 97. The penalty \<^verbatim>\<open>-1e9\<close> is
  the real number \<open>- 1000000000\<close>. No statement of the function seeds the random
  source (line 77 is a comment).
\<close>

definition evaluate_solution :: "problem \<Rightarrow> int list \<Rightarrow> rng \<Rightarrow> (error + real) \<times> rng" where
  "evaluate_solution self candidate g =
     (if int (length candidate) \<noteq> nb_periods self then (Inl ValueError, g)
      else (case getitem candidate 0 of
              Inl e \<Rightarrow> (Inl e, g)
            | Inr purchase \<Rightarrow>
                (let reserves = drop 1 candidate @ [0] in
                 case infeasible candidate of
                   Inl e \<Rightarrow> (Inl e, g)
                 | Inr True \<Rightarrow> (Inr (- 1000000000), g)
                 | Inr False \<Rightarrow>
                     (case simulation_loop self purchase reserves
                             (nat (nb_simulations self)) 0 g of
                        (Inl e, g') \<Rightarrow> (Inl e, g')
                      | (Inr sum_profit, g') \<Rightarrow>
                          if nb_simulations self = 0 then (Inl ZeroDivisionError, g')
                          else (Inr (sum_profit / real_of_int (nb_simulations self)
                                     - real_of_int (purchase_price self * purchase)), g')))))"

text \<open>
  \<^verbatim>\<open>
  def random_solution(self):
      purchase = random.randint(0, 100)
      reserve_p2 = random.randint(0, purchase)
      reserve_p3 = random.randint(0, reserve_p2)
      return [purchase, reserve_p2, reserve_p3]
  \<close>
\<close>

definition random_solution :: "problem \<Rightarrow> rng \<Rightarrow> (error + int list) \<times> rng" where
  "random_solution self g =
     (case randint 0 100 g of
        (Inl e, g1) \<Rightarrow> (Inl e, g1)
      | (Inr purchase, g1) \<Rightarrow>
          (case randint 0 purchase g1 of
             (Inl e, g2) \<Rightarrow> (Inl e, g2)
           | (Inr reserve_p2, g2) \<Rightarrow>
               (case randint 0 reserve_p2 g2 of
                  (Inl e, g3) \<Rightarrow> (Inl e, g3)
                | (Inr reserve_p3, g3) \<Rightarrow>
                    (Inr [purchase, reserve_p2, reserve_p3], g3))))"

section \<open>The specification's words\<close>

text \<open>
  The definitions of this section follow the specification, not the source; the
  theorems below compare the two. The specification's generators, as functions of the
  uniform variate \<open>u\<close>: \<open>exponential(rate)\<close> returns \<open>ln(1-u) / (-rate)\<close>, and a gamma
  variate of shape 1 and scale \<open>scale\<close> is an exponential variate of rate \<open>1/scale\<close>.
\<close>

definition spec_exponential :: "real \<Rightarrow> real \<Rightarrow> real" where
  "spec_exponential rate u = ln (1 - u) / (- rate)"

definition spec_gamma_shape1 :: "real \<Rightarrow> real \<Rightarrow> real" where
  "spec_gamma_shape1 scale u = spec_exponential (1 / scale) u"

text \<open>
  The profit of one trial in the specification's words: for each period \<open>j\<close> in order,
  the demand is the floor of \<open>mean_demand[j] * X * Y[j]\<close>, the available stock is
  \<open>max(remaining - reserves[j], 0)\<close>, the units sold are the minimum of the two, the
  remaining stock goes down by the units sold, and \<open>price[j] * units_sold\<close> is added to
  the profit.
\<close>

fun spec_trial ::
  "int list \<Rightarrow> int list \<Rightarrow> int list \<Rightarrow> real \<Rightarrow> real list \<Rightarrow> nat list \<Rightarrow> int \<Rightarrow> int" where
  "spec_trial price mean_demand reserves X Y [] remaining = 0"
| "spec_trial price mean_demand reserves X Y (j # js) remaining =
     (let demand = \<lfloor>real_of_int (mean_demand ! j) * X * Y ! j\<rfloor>;
          available = max (remaining - reserves ! j) 0;
          units_sold = min available demand
      in price ! j * units_sold
         + spec_trial price mean_demand reserves X Y js (remaining - units_sold))"

text \<open>
  Trial \<open>t\<close> of an evaluation started in state \<open>g\<close> draws the shared \<open>X\<close> and then
  \<open>Y[0]\<close>, \<open>Y[1]\<close>, \<open>Y[2]\<close>: four variates, from position \<open>pos g + 4 * t\<close> on. The
  reserves are \<open>[reserve2, reserve3, 0]\<close>, the periods 0, 1, 2.
\<close>

definition spec_trial_profit :: "problem \<Rightarrow> int \<Rightarrow> int \<Rightarrow> int \<Rightarrow> rng \<Rightarrow> nat \<Rightarrow> int" where
  "spec_trial_profit self purchase reserve2 reserve3 g t =
     spec_trial (prices self) (mean_demands self) [reserve2, reserve3, 0]
       (spec_gamma_shape1 1 (draws g (pos g + 4 * t)))
       [spec_exponential 1 (draws g (pos g + 4 * t + 1)),
        spec_exponential 1 (draws g (pos g + 4 * t + 2)),
        spec_exponential 1 (draws g (pos g + 4 * t + 3))]
       [0, 1, 2] purchase"

text \<open>
  The sum of the trials' profits, divided by the number of trials, minus the purchase
  cost paid once.
\<close>

definition spec_evaluate :: "problem \<Rightarrow> nat \<Rightarrow> int \<Rightarrow> int \<Rightarrow> int \<Rightarrow> rng \<Rightarrow> real" where
  "spec_evaluate self trial_count purchase reserve2 reserve3 g =
     (\<Sum>t<trial_count. real_of_int (spec_trial_profit self purchase reserve2 reserve3 g t))
       / real trial_count
     - real_of_int (purchase_price self * purchase)"

section \<open>Random sources that will return the same variates\<close>

text \<open>
  Two states of the random source are observably the same when the variates still to
  come are the same, whatever was consumed before.
\<close>

definition same_stream :: "rng \<Rightarrow> rng \<Rightarrow> bool" where
  "same_stream g1 g2 = (\<forall>i. draws g1 (pos g1 + i) = draws g2 (pos g2 + i))"

text \<open>
  A random source for the examples: every variate that becomes \<open>X\<close> is \<open>1 - exp (-1)\<close>
  (so \<open>X = 1\<close>), every other one is \<open>1 - exp (-1/4)\<close> (so \<open>Y[j] = 1/4\<close>).
\<close>

definition example_draws :: "nat \<Rightarrow> real" where
  "example_draws i = (if i mod 4 = 0 then 1 - exp (- 1) else 1 - exp (- (1 / 4)))"

definition example_source :: rng where
  "example_source = \<lparr>draws = example_draws, pos = 0\<rparr>"

text \<open>Two more: every variate is \<open>1/2\<close>; every variate is \<open>0\<close>.\<close>

definition half_source :: rng where
  "half_source = \<lparr>draws = (\<lambda>i. 1 / 2), pos = 0\<rparr>"

definition zero_source :: rng where
  "zero_source = \<lparr>draws = (\<lambda>i. 0), pos = 0\<rparr>"

section \<open>Properties\<close>

subsection \<open>Indexing, the random source, the generators\<close>

lemma getitem_simps:
  "getitem (x # xs) 0 = Inr x"
  "getitem (x # xs) (Suc i) = getitem xs i"
  "getitem [] i = Inl IndexError"
  by (simp_all add: getitem_def)

declare spec_trial.simps(2) [simp del]

lemma rng_ok_pos [simp]: "rng_ok (g\<lparr>pos := k\<rparr>) = rng_ok g"
  by (simp add: rng_ok_def)

lemma exponential_sample_ok:
  assumes "rng_ok g"
  shows "exponential_sample 1 g = (Inr (- ln (1 - draws g (pos g))), g\<lparr>pos := pos g + 1\<rparr>)"
    and "0 \<le> - ln (1 - draws g (pos g))"
proof -
  have u: "0 \<le> draws g (pos g)" "draws g (pos g) < 1"
    using assms by (simp_all add: rng_ok_def)
  show "exponential_sample 1 g = (Inr (- ln (1 - draws g (pos g))), g\<lparr>pos := pos g + 1\<rparr>)"
    using u by (simp add: exponential_sample_def random_random_def)
  show "0 \<le> - ln (1 - draws g (pos g))"
    using u by simp
qed

lemma sample_Y_3:
  assumes "rng_ok g"
  shows "sample_Y 3 g =
    (Inr [- ln (1 - draws g (pos g)), - ln (1 - draws g (pos g + 1)), - ln (1 - draws g (pos g + 2))],
     g\<lparr>pos := pos g + 3\<rparr>)"
proof -
  have 1: "rng_ok (g\<lparr>pos := pos g + 1\<rparr>)" "rng_ok (g\<lparr>pos := pos g + 2\<rparr>)"
    using assms by simp_all
  have three: "(3::nat) = Suc (Suc (Suc 0))" by simp
  show ?thesis
    unfolding three
    using exponential_sample_ok(1)[OF assms] exponential_sample_ok(1)[OF 1(1)]
      exponential_sample_ok(1)[OF 1(2)]
    by (simp add: numeral_2_eq_2 numeral_3_eq_3)
qed

lemma sample_Y_length: "sample_Y k g = (Inr Y, g') \<Longrightarrow> length Y = k"
proof (induction k arbitrary: g Y g')
  case 0
  then show ?case by simp
next
  case (Suc k)
  then show ?case
    by (auto split: prod.splits sum.splits)
qed

lemma draw_nonneg: "rng_ok g \<Longrightarrow> 0 \<le> - ln (1 - draws g i)"
  by (simp add: rng_ok_def)

lemma period_loop_append:
  "period_loop self rs X Y (js @ ks) st =
     (case period_loop self rs X Y js st of
        Inl e \<Rightarrow> Inl e
      | Inr st' \<Rightarrow> period_loop self rs X Y ks st')"
  by (induction js arbitrary: st) (auto split: sum.splits)

lemma period_sale_total:
  assumes "configured self" "length Y = 3" "length reserves = 3" "j < 3"
  shows "period_sale self reserves X Y j remaining =
    Inr (min (max (remaining - reserves ! j) 0)
             (py_int (real_of_int (mean_demands self ! j) * X * Y ! j)))"
  using assms by (simp add: period_sale_def getitem_def configured_def)

lemma period_step_total:
  assumes "configured self" "length Y = 3" "length reserves = 3" "j < 3"
  shows "period_step self reserves X Y j (remaining, sum_profit) =
    Inr (remaining - min (max (remaining - reserves ! j) 0)
             (py_int (real_of_int (mean_demands self ! j) * X * Y ! j)),
         sum_profit + real_of_int (prices self ! j * min (max (remaining - reserves ! j) 0)
             (py_int (real_of_int (mean_demands self ! j) * X * Y ! j))))"
  using period_sale_total[OF assms] assms
  by (simp add: period_step_def getitem_def configured_def)

lemma nth_nonneg: "\<forall>r\<in>set rs. (0::int) \<le> r \<Longrightarrow> j < length rs \<Longrightarrow> 0 \<le> rs ! j"
  by simp

lemma period_loop_remaining:
  assumes cfg: "configured self" and Y: "length Y = 3" and rs: "length reserves = 3"
    and nn: "\<forall>r\<in>set reserves. 0 \<le> r" and p: "0 \<le> purchase" and j: "j \<le> 3"
  shows "\<exists>remaining sum_profit.
           period_loop self reserves X Y [0..<j] (purchase, sp0) = Inr (remaining, sum_profit) \<and>
           0 \<le> remaining"
  using j
proof (induction j)
  case 0
  then show ?case using p by simp
next
  case (Suc j)
  then have j3: "j < 3" by simp
  from Suc obtain remaining sum_profit where
    st: "period_loop self reserves X Y [0..<j] (purchase, sp0) = Inr (remaining, sum_profit)"
    and r0: "0 \<le> remaining" by auto
  have "0 \<le> reserves ! j" using nn rs j3 by simp
  then have "0 \<le> remaining - min (max (remaining - reserves ! j) 0)
             (py_int (real_of_int (mean_demands self ! j) * X * Y ! j))"
    using r0 by linarith
  then show ?case
    using st period_step_total[OF cfg Y rs j3, of X remaining sum_profit]
    by (simp add: period_loop_append)
qed

lemma py_int_nonneg: "0 \<le> x \<Longrightarrow> 0 \<le> py_int x"
  by (simp add: py_int_def)

lemma simulation_loop_invariant:
  assumes cfg: "configured self"
    and step: "\<And>X Y sp. 0 \<le> X \<Longrightarrow> length Y = 3 \<Longrightarrow> (\<forall>y\<in>set Y. 0 \<le> y) \<Longrightarrow> P sp \<Longrightarrow>
        \<exists>remaining sp'. period_loop self reserves X Y [0..<3] (purchase, sp) = Inr (remaining, sp') \<and> P sp'"
  shows "rng_ok g \<Longrightarrow> P sp \<Longrightarrow>
    \<exists>sp'. simulation_loop self purchase reserves k sp g = (Inr sp', g\<lparr>pos := pos g + 4 * k\<rparr>) \<and> P sp'"
proof (induction k arbitrary: sp g)
  case 0
  then show ?case by simp
next
  case (Suc k)
  let ?X = "- ln (1 - draws g (pos g))"
  let ?g1 = "g\<lparr>pos := pos g + 1\<rparr>"
  let ?Y = "[- ln (1 - draws g (pos g + 1)), - ln (1 - draws g (pos g + 2)),
             - ln (1 - draws g (pos g + 3))]"
  let ?g2 = "g\<lparr>pos := pos g + 4\<rparr>"
  have X: "gamma_sample 1 g = (Inr ?X, ?g1)" "0 \<le> ?X"
    using exponential_sample_ok[OF Suc.prems(1)] by (simp_all add: gamma_sample_def)
  have ok1: "rng_ok ?g1" using Suc.prems(1) by simp
  have Y: "sample_Y 3 ?g1 = (Inr ?Y, ?g2)"
    using sample_Y_3[OF ok1] by (simp add: numeral_3_eq_3)
  have Ynn: "\<forall>y\<in>set ?Y. 0 \<le> y"
    using draw_nonneg[OF Suc.prems(1)] by simp
  obtain remaining sp' where
    loop: "period_loop self reserves ?X ?Y [0..<3] (purchase, sp) = Inr (remaining, sp')"
    and P': "P sp'"
    using step[OF X(2) _ Ynn Suc.prems(2)] by auto
  have ok2: "rng_ok ?g2" using Suc.prems(1) by simp
  obtain sp'' where
    rest: "simulation_loop self purchase reserves k sp' ?g2 = (Inr sp'', ?g2\<lparr>pos := pos ?g2 + 4 * k\<rparr>)"
    and P'': "P sp''"
    using Suc.IH[OF ok2 P'] by auto
  have n3: "nat (nb_periods self) = 3" using cfg by (simp add: configured_def)
  show ?case
    using X(1) Y loop rest P'' n3 by simp
qed

lemma evaluate_feasible_unfold:
  assumes "configured self" "r2 \<le> p" "r3 \<le> r2"
  shows "evaluate_solution self [p, r2, r3] g =
    (case simulation_loop self p [r2, r3, 0] (nat (nb_simulations self)) 0 g of
       (Inl e, g') \<Rightarrow> (Inl e, g')
     | (Inr sum_profit, g') \<Rightarrow>
         if nb_simulations self = 0 then (Inl ZeroDivisionError, g')
         else (Inr (sum_profit / real_of_int (nb_simulations self)
                    - real_of_int (purchase_price self * p)), g'))"
  using assms
  by (simp add: evaluate_solution_def configured_def infeasible_def getitem_def)

lemma period_loop_no_stock:
  assumes cfg: "configured self" and Y: "length Y = 3" and X: "0 \<le> X"
    and Ynn: "\<forall>y\<in>set Y. 0 \<le> y" and j: "j \<le> 3"
  shows "period_loop self [0, 0, 0] X Y [0..<j] (0, sp) = Inr (0, sp)"
  using j
proof (induction j)
  case 0
  then show ?case by simp
next
  case (Suc j)
  then have j3: "j < 3" by simp
  have md: "0 \<le> mean_demands self ! j"
    using cfg j3 by (simp add: configured_def nth_Cons')
  have "0 \<le> Y ! j" using Ynn Y j3 by simp
  then have "0 \<le> real_of_int (mean_demands self ! j) * X * Y ! j"
    using md X by simp
  then have d: "0 \<le> py_int (real_of_int (mean_demands self ! j) * X * Y ! j)"
    by (rule py_int_nonneg)
  have r: "[0, 0, 0::int] ! j = 0" using j3 by (simp add: nth_Cons')
  show ?case
    using Suc j3 d r period_step_total[OF cfg Y _ j3, of "[0, 0, 0]" X 0 sp]
    by (simp add: period_loop_append)
qed

lemma period_loop_profit_mono:
  assumes cfg: "configured self" and Y: "length Y = 3" and rs: "length reserves = 3"
    and X: "0 \<le> X" and Ynn: "\<forall>y\<in>set Y. 0 \<le> y" and j: "j \<le> 3"
  shows "\<exists>remaining sp'.
           period_loop self reserves X Y [0..<j] (purchase, sp) = Inr (remaining, sp') \<and> sp \<le> sp'"
  using j
proof (induction j)
  case 0
  then show ?case by simp
next
  case (Suc j)
  then have j3: "j < 3" by simp
  from Suc obtain remaining sp' where
    st: "period_loop self reserves X Y [0..<j] (purchase, sp) = Inr (remaining, sp')"
    and le: "sp \<le> sp'" by auto
  have md: "0 \<le> mean_demands self ! j" and pr: "0 \<le> prices self ! j"
    using cfg j3 by (simp_all add: configured_def nth_Cons')
  have "0 \<le> Y ! j" using Ynn Y j3 by simp
  then have "0 \<le> real_of_int (mean_demands self ! j) * X * Y ! j"
    using md X by simp
  then have d: "0 \<le> py_int (real_of_int (mean_demands self ! j) * X * Y ! j)"
    by (rule py_int_nonneg)
  then have "0 \<le> min (max (remaining - reserves ! j) 0)
      (py_int (real_of_int (mean_demands self ! j) * X * Y ! j))"
    by simp
  then have "0 \<le> prices self ! j * min (max (remaining - reserves ! j) 0)
      (py_int (real_of_int (mean_demands self ! j) * X * Y ! j))"
    using pr by simp
  then have "0 \<le> real_of_int (prices self ! j * min (max (remaining - reserves ! j) 0)
      (py_int (real_of_int (mean_demands self ! j) * X * Y ! j)))"
    by linarith
  then show ?case
    using st le period_step_total[OF cfg Y rs j3, of X remaining sp']
    by (simp add: period_loop_append)
qed

lemma py_int_floor: "0 \<le> x \<Longrightarrow> py_int x = \<lfloor>x\<rfloor>"
  by (simp add: py_int_def)

lemma period_loop_spec_trial:
  assumes cfg: "configured self" and Y: "length Y = 3" and rs: "length reserves = 3"
    and X: "0 \<le> X" and Ynn: "\<forall>y\<in>set Y. 0 \<le> y"
  shows "set js \<subseteq> {0, 1, 2} \<Longrightarrow> \<exists>remaining'.
    period_loop self reserves X Y js (remaining, sp) =
      Inr (remaining', sp + real_of_int
        (spec_trial (prices self) (mean_demands self) reserves X Y js remaining))"
proof (induction js arbitrary: remaining sp)
  case Nil
  then show ?case by simp
next
  case (Cons j js)
  then have j3: "j < 3" by auto
  have md: "0 \<le> mean_demands self ! j"
    using cfg j3 by (simp add: configured_def nth_Cons')
  have "0 \<le> Y ! j" using Ynn Y j3 by simp
  then have "0 \<le> real_of_int (mean_demands self ! j) * X * Y ! j"
    using md X by simp
  then have d: "py_int (real_of_int (mean_demands self ! j) * X * Y ! j) =
      \<lfloor>real_of_int (mean_demands self ! j) * X * Y ! j\<rfloor>"
    by (rule py_int_floor)
  define u where "u = min (max (remaining - reserves ! j) 0)
      \<lfloor>real_of_int (mean_demands self ! j) * X * Y ! j\<rfloor>"
  have step: "period_step self reserves X Y j (remaining, sp) =
      Inr (remaining - u, sp + real_of_int (prices self ! j * u))"
    using period_step_total[OF cfg Y rs j3, of X remaining sp] by (simp add: d u_def)
  from Cons have "set js \<subseteq> {0, 1, 2}" by simp
  from Cons.IH[OF this, of "remaining - u" "sp + real_of_int (prices self ! j * u)"]
  obtain remaining' where
    rest: "period_loop self reserves X Y js (remaining - u, sp + real_of_int (prices self ! j * u)) =
      Inr (remaining', sp + real_of_int (prices self ! j * u) + real_of_int
        (spec_trial (prices self) (mean_demands self) reserves X Y js (remaining - u)))"
    by blast
  have "spec_trial (prices self) (mean_demands self) reserves X Y (j # js) remaining =
      prices self ! j * u + spec_trial (prices self) (mean_demands self) reserves X Y js (remaining - u)"
    by (simp add: u_def Let_def spec_trial.simps)
  then show ?case
    using step rest by simp
qed

lemma upt_0_3: "[0..<3] = [0, 1, 2]"
  by (simp add: numeral_3_eq_3 numeral_2_eq_2)

lemma spec_trial_profit_shift:
  "spec_trial_profit self p r2 r3 (g\<lparr>pos := pos g + 4\<rparr>) t = spec_trial_profit self p r2 r3 g (Suc t)"
  by (simp add: spec_trial_profit_def add.assoc)

lemma spec_trial_profit_0:
  "spec_trial_profit self p r2 r3 g 0 =
     spec_trial (prices self) (mean_demands self) [r2, r3, 0]
       (- ln (1 - draws g (pos g)))
       [- ln (1 - draws g (pos g + 1)), - ln (1 - draws g (pos g + 2)),
        - ln (1 - draws g (pos g + 3))]
       [0, 1, 2] p"
  by (simp add: spec_trial_profit_def spec_gamma_shape1_def spec_exponential_def)

lemma simulation_loop_spec:
  assumes cfg: "configured self"
  shows "rng_ok g \<Longrightarrow> simulation_loop self p [r2, r3, 0] k sp g =
    (Inr (sp + (\<Sum>t<k. real_of_int (spec_trial_profit self p r2 r3 g t))),
     g\<lparr>pos := pos g + 4 * k\<rparr>)"
proof (induction k arbitrary: sp g)
  case 0
  then show ?case by simp
next
  case (Suc k)
  let ?X = "- ln (1 - draws g (pos g))"
  let ?g1 = "g\<lparr>pos := pos g + 1\<rparr>"
  let ?Y = "[- ln (1 - draws g (pos g + 1)), - ln (1 - draws g (pos g + 2)),
             - ln (1 - draws g (pos g + 3))]"
  let ?g2 = "g\<lparr>pos := pos g + 4\<rparr>"
  let ?t0 = "real_of_int (spec_trial_profit self p r2 r3 g 0)"
  have X: "gamma_sample 1 g = (Inr ?X, ?g1)" "0 \<le> ?X"
    using exponential_sample_ok[OF Suc.prems] by (simp_all add: gamma_sample_def)
  have ok1: "rng_ok ?g1" using Suc.prems by simp
  have Y: "sample_Y 3 ?g1 = (Inr ?Y, ?g2)"
    using sample_Y_3[OF ok1] by (simp add: numeral_3_eq_3)
  have Ynn: "\<forall>y\<in>set ?Y. 0 \<le> y"
    using draw_nonneg[OF Suc.prems] by simp
  have js: "set [0, 1, 2::nat] \<subseteq> {0, 1, 2}" by simp
  obtain remaining where
    loop: "period_loop self [r2, r3, 0] ?X ?Y [0..<3] (p, sp) = Inr (remaining, sp + ?t0)"
    using period_loop_spec_trial[OF cfg _ _ X(2) Ynn js, of "[r2, r3, 0]" p sp]
    by (auto simp add: upt_0_3 spec_trial_profit_0)
  have ok2: "rng_ok ?g2" using Suc.prems by simp
  have rest: "simulation_loop self p [r2, r3, 0] k (sp + ?t0) ?g2 =
    (Inr (sp + ?t0 + (\<Sum>t<k. real_of_int (spec_trial_profit self p r2 r3 g (Suc t)))),
     g\<lparr>pos := pos g + 4 * Suc k\<rparr>)"
    using Suc.IH[OF ok2, of "sp + ?t0"] by (simp add: spec_trial_profit_shift)
  have n3: "nat (nb_periods self) = 3" using cfg by (simp add: configured_def)
  have unroll: "simulation_loop self p [r2, r3, 0] (Suc k) sp g =
      simulation_loop self p [r2, r3, 0] k (sp + ?t0) ?g2"
    using X(1) Y loop n3 by simp
  have "(\<Sum>t<Suc k. real_of_int (spec_trial_profit self p r2 r3 g t)) =
      ?t0 + (\<Sum>t<k. real_of_int (spec_trial_profit self p r2 r3 g (Suc t)))"
    by (rule sum.lessThan_Suc_shift)
  then have "sp + (\<Sum>t<Suc k. real_of_int (spec_trial_profit self p r2 r3 g t)) =
      sp + ?t0 + (\<Sum>t<k. real_of_int (spec_trial_profit self p r2 r3 g (Suc t)))"
    by linarith
  then show ?case
    unfolding unroll rest by (rule arg_cong2[where f = Pair, OF arg_cong[where f = Inr] refl, symmetric])
qed

lemma random_random_same:
  assumes "same_stream g1 g2"
  shows "fst (random_random g1) = fst (random_random g2)"
    and "same_stream (snd (random_random g1)) (snd (random_random g2))"
proof -
  have "draws g1 (pos g1 + 0) = draws g2 (pos g2 + 0)"
    using assms unfolding same_stream_def by blast
  then show "fst (random_random g1) = fst (random_random g2)"
    by (simp add: random_random_def)
  have "draws g1 (pos g1 + Suc i) = draws g2 (pos g2 + Suc i)" for i
    using assms unfolding same_stream_def by blast
  then show "same_stream (snd (random_random g1)) (snd (random_random g2))"
    by (simp add: random_random_def same_stream_def)
qed

lemma exponential_sample_same:
  assumes "same_stream g1 g2"
  shows "\<exists>a h1 h2. exponential_sample r g1 = (a, h1) \<and> exponential_sample r g2 = (a, h2) \<and>
           same_stream h1 h2"
  using random_random_same[OF assms]
  by (auto simp add: exponential_sample_def split: prod.splits)

lemma sample_Y_same:
  "same_stream g1 g2 \<Longrightarrow>
   \<exists>a h1 h2. sample_Y k g1 = (a, h1) \<and> sample_Y k g2 = (a, h2) \<and> same_stream h1 h2"
proof (induction k arbitrary: g1 g2)
  case 0
  then show ?case by simp
next
  case (Suc k)
  obtain a h1 h2 where e: "exponential_sample 1 g1 = (a, h1)" "exponential_sample 1 g2 = (a, h2)"
    and h: "same_stream h1 h2"
    using exponential_sample_same[OF Suc.prems, of 1] by blast
  show ?case
  proof (cases a)
    case (Inl err)
    then show ?thesis using e h by simp
  next
    case (Inr y)
    obtain b k1 k2 where s: "sample_Y k h1 = (b, k1)" "sample_Y k h2 = (b, k2)"
      and k: "same_stream k1 k2"
      using Suc.IH[OF h] by blast
    show ?thesis
      using e Inr s k by (cases b) simp_all
  qed
qed

lemma period_step_seed:
  "period_step (self\<lparr>seed := s\<rparr>) reserves X Y j st = period_step self reserves X Y j st"
  by (cases st) (simp add: period_step_def period_sale_def split: sum.splits)

lemma period_loop_seed:
  "period_loop (self\<lparr>seed := s\<rparr>) reserves X Y js st = period_loop self reserves X Y js st"
  by (induction js arbitrary: st) (simp_all add: period_step_seed split: sum.splits)

lemma simulation_loop_same:
  "same_stream g1 g2 \<Longrightarrow>
   \<exists>a h1 h2. simulation_loop (self\<lparr>seed := s1\<rparr>) purchase reserves k sp g1 = (a, h1) \<and>
     simulation_loop (self\<lparr>seed := s2\<rparr>) purchase reserves k sp g2 = (a, h2) \<and>
     same_stream h1 h2"
proof (induction k arbitrary: sp g1 g2)
  case 0
  then show ?case by simp
next
  case (Suc k)
  obtain a h1 h2 where e: "gamma_sample 1 g1 = (a, h1)" "gamma_sample 1 g2 = (a, h2)"
    and h: "same_stream h1 h2"
    using exponential_sample_same[OF Suc.prems, of 1] unfolding gamma_sample_def by blast
  show ?case
  proof (cases a)
    case (Inl err)
    then show ?thesis using e h by simp
  next
    case X: (Inr X)
    let ?n = "nat (nb_periods self)"
    obtain b k1 k2 where s: "sample_Y ?n h1 = (b, k1)" "sample_Y ?n h2 = (b, k2)"
      and k: "same_stream k1 k2"
      using sample_Y_same[OF h, of ?n] by blast
    show ?thesis
    proof (cases b)
      case (Inl err)
      then show ?thesis using e X s k by simp
    next
      case Y: (Inr Y)
      show ?thesis
      proof (cases "period_loop self reserves X Y [0..<?n] (purchase, sp)")
        case (Inl err)
        then show ?thesis
          using e X s k Y by (simp add: period_loop_seed)
      next
        case (Inr st)
        obtain remaining sp' where st: "st = (remaining, sp')" by (cases st)
        show ?thesis
          using e X s Y Inr st Suc.IH[OF k, of sp']
          by (simp add: period_loop_seed)
      qed
    qed
  qed
qed

lemma randint_range:
  assumes "a \<le> b" "rng_ok g"
  shows "\<exists>n. randint a b g = (Inr n, g\<lparr>pos := pos g + 1\<rparr>) \<and> a \<le> n \<and> n \<le> b"
proof -
  define u where "u = draws g (pos g)"
  have u: "0 \<le> u" "u < 1" using assms(2) by (simp_all add: rng_ok_def u_def)
  define m where "m = b - a + 1"
  have m: "0 < m" using assms(1) by (simp add: m_def)
  have "u * real_of_int m < real_of_int m" using u m by simp
  then have hi: "\<lfloor>u * real_of_int m\<rfloor> < m" by (simp add: floor_less_iff)
  have lo: "0 \<le> \<lfloor>u * real_of_int m\<rfloor>" using u m by simp
  show ?thesis using lo hi assms(1)
    by (simp add: randint_def random_random_def u_def m_def)
qed

subsection \<open>The example inputs\<close>

lemma rng_ok_example_source: "rng_ok example_source"
  by (simp add: rng_ok_def example_source_def example_draws_def)

lemma rng_ok_half_source: "rng_ok half_source"
  by (simp add: rng_ok_def half_source_def)

lemma configured_init: "configured (init s)"
  by (simp add: configured_def init_def)

lemma example_draws_simps:
  "example_draws (4 * t) = 1 - exp (- 1)"
  "example_draws (4 * t + 1) = 1 - exp (- (1 / 4))"
  "example_draws (4 * t + 2) = 1 - exp (- (1 / 4))"
  "example_draws (4 * t + 3) = 1 - exp (- (1 / 4))"
proof -
  have m: "(4 * t) mod 4 = 0" "(4 * t + 1) mod 4 \<noteq> 0" "(4 * t + 2) mod 4 \<noteq> 0"
    "(4 * t + 3) mod 4 \<noteq> 0"
    by presburger+
  show "example_draws (4 * t) = 1 - exp (- 1)"
    "example_draws (4 * t + 1) = 1 - exp (- (1 / 4))"
    "example_draws (4 * t + 2) = 1 - exp (- (1 / 4))"
    "example_draws (4 * t + 3) = 1 - exp (- (1 / 4))"
    by (simp_all only: example_draws_def m if_True if_False refl)
qed

lemma example_variates:
  "spec_gamma_shape1 1 (1 - exp (- 1)) = 1"
  "spec_exponential 1 (1 - exp (- (1 / 4))) = 1 / 4"
  by (simp_all add: spec_gamma_shape1_def spec_exponential_def)

lemma example_trial:
  "spec_trial [100, 300, 400] [50, 20, 30] [50, 30, 0] 1 [1 / 4, 1 / 4, 1 / 4] [0, 1, 2] 100 = 5500"
  by (simp add: spec_trial.simps Let_def)

lemma example_trial_profit:
  "spec_trial_profit (init s) 100 50 30 example_source t = 5500"
proof -
  have "spec_trial_profit (init s) 100 50 30 example_source t =
      spec_trial [100, 300, 400] [50, 20, 30] [50, 30, 0] 1 [1 / 4, 1 / 4, 1 / 4] [0, 1, 2] 100"
    unfolding spec_trial_profit_def example_source_def init_def
    by (simp only: rng.select_convs problem.select_convs add_0 example_draws_simps example_variates)
  then show ?thesis by (simp only: example_trial)
qed

lemma example_spec_evaluate:
  "spec_evaluate (init s) 100 100 50 30 example_source = - 2500"
  by (simp add: spec_evaluate_def example_trial_profit) (simp add: init_def)

lemma example_period_0:
  "period_loop (init 0) [50, 30, 0] 1 [1 / 4, 1 / 4, 1 / 4] [0..<1] (100, 0) = Inr (88, 1200)"
  by (simp add: period_step_def period_sale_def getitem_def py_int_def init_def)

lemma example_period_1:
  "period_sale (init 0) [50, 30, 0] 1 [1 / 4, 1 / 4, 1 / 4] 1 88 = Inr 5"
  by (simp add: period_sale_def getitem_def py_int_def init_def)

lemma same_stream_example: "same_stream example_source (example_source\<lparr>pos := 4\<rparr>)"
  by (simp add: same_stream_def example_source_def example_draws_def)

lemma gamma_sample_scale_1:
  "0 \<le> fst (random_random g) \<Longrightarrow> fst (random_random g) < 1 \<Longrightarrow>
   fst (gamma_sample 1 g) = Inr (spec_gamma_shape1 1 (fst (random_random g)))"
  by (simp add: gamma_sample_def exponential_sample_def random_random_def
      spec_gamma_shape1_def spec_exponential_def)

lemma rng_ok_zero_source: "rng_ok zero_source"
  by (simp add: rng_ok_def zero_source_def)

lemma zero_trial:
  "spec_trial price mean_demand reserves 0 Y js purchase = 0"
  by (induction js arbitrary: purchase) (simp_all add: spec_trial.simps Let_def)

lemma zero_trial_profit: "spec_trial_profit self p r2 r3 zero_source t = 0"
  by (simp add: spec_trial_profit_def spec_gamma_shape1_def spec_exponential_def zero_source_def
      zero_trial)

lemma evaluate_zero_source:
  "fst (evaluate_solution (init 0) [100, 50, 30] zero_source) = Inr (- 8000)"
  by (simp add: evaluate_feasible_unfold[OF configured_init]
      simulation_loop_spec[OF configured_init rng_ok_zero_source] zero_trial_profit)
    (simp add: init_def)

lemma evaluate_example_source:
  "fst (evaluate_solution (init 0) [100, 50, 30] example_source) = Inr (- 2500)"
  by (simp add: evaluate_feasible_unfold[OF configured_init]
      simulation_loop_spec[OF configured_init rng_ok_example_source] example_trial_profit)
    (simp add: init_def)

text \<open>
  The value returned depends on the state of the random source the call receives: the
  evaluator does not reset it.
\<close>

lemma evaluate_depends_on_source:
  "fst (evaluate_solution (init 0) [100, 50, 30] example_source) \<noteq>
   fst (evaluate_solution (init 0) [100, 50, 30] zero_source)"
  by (simp add: evaluate_zero_source evaluate_example_source)

text \<open>
  Outside the hypotheses of the claims: with no simulation at all the division by the
  number of simulations raises, and with a negative reserve a period can sell more than
  the remaining stock.
\<close>

lemma evaluate_zero_simulations:
  assumes "configured self" "nb_simulations self = 0" "r2 \<le> p" "r3 \<le> r2"
  shows "evaluate_solution self [p, r2, r3] g = (Inl ZeroDivisionError, g)"
  using assms(2) by (simp add: evaluate_feasible_unfold[OF assms(1,3,4)])

lemma negative_reserve_oversells:
  "period_sale (init 0) [- 10, - 10, 0] 1 [1, 1, 1] 0 5 = Inr 15"
  by (simp add: period_sale_def getitem_def py_int_def init_def)

section \<open>The claims\<close>

text \<open>
  Claim C1. For a candidate \<open>[purchase, reserve2, reserve3]\<close> with \<open>reserve2 \<le> purchase\<close> and
  \<open>reserve3 \<le> reserve2\<close>, and a positive number of trials, the evaluator returns what the
  specification describes: the sum of the trials' profits divided by the number of
  trials, minus the purchase cost, where each trial draws \<open>X\<close> and \<open>Y[0..2]\<close>, uses the
  reserves \<open>[reserve2, reserve3, 0]\<close> and sells \<open>min(max(remaining - reserves[j], 0),
  floor(mean_demand[j] * X * Y[j]))\<close> units in period \<open>j\<close>. The source truncates toward
  zero where the specification takes the floor; the variates are never negative, so the
  two agree. Four variates are consumed per trial.
\<close>

theorem evaluate_refines_spec:
  assumes "configured self" "nb_simulations self = int n" "0 < n" "rng_ok g"
    and "r2 \<le> p" "r3 \<le> r2"
  shows "evaluate_solution self [p, r2, r3] g =
    (Inr (spec_evaluate self n p r2 r3 g), g\<lparr>pos := pos g + 4 * n\<rparr>)"
  using assms(2,3)
  by (simp add: evaluate_feasible_unfold[OF assms(1,5,6)]
      simulation_loop_spec[OF assms(1,4)] spec_evaluate_def)

theorem evaluate_refines_spec_witness:
  "configured (init 0) \<and> nb_simulations (init 0) = int 100 \<and> rng_ok example_source \<and>
   evaluate_solution (init 0) [100, 50, 30] example_source =
     (Inr (- 2500), example_source\<lparr>pos := 400\<rparr>)"
  using evaluate_refines_spec[where self = "init 0" and n = 100
      and g = example_source and p = 100 and ?r2.0 = 50 and ?r3.0 = 30,
      OF configured_init _ _ rng_ok_example_source]
  by (simp add: configured_init rng_ok_example_source example_spec_evaluate)
    (simp add: example_source_def init_def)

text \<open>
  Claim C2. For a candidate of three values with \<open>reserve2 > purchase\<close> or
  \<open>reserve3 > reserve2\<close>, the evaluator returns the penalty \<open>-1e9\<close> as a value (no
  exception), and the random source is returned as it was: no variate is drawn.
\<close>

theorem evaluate_infeasible:
  "configured self \<Longrightarrow> p < r2 \<or> r2 < r3 \<Longrightarrow>
   evaluate_solution self [p, r2, r3] g = (Inr (- 1000000000), g)"
  by (auto simp add: evaluate_solution_def configured_def infeasible_def getitem_def)

theorem evaluate_infeasible_witness:
  "configured (init 0) \<and> ((10::int) < 50 \<or> (50::int) < 5) \<and>
   evaluate_solution (init 0) [10, 50, 5] example_source = (Inr (- 1000000000), example_source)"
  using evaluate_infeasible[of "init 0" 10 50 5 example_source]
  by (simp add: configured_init)

text \<open>
  Claim C3. For a candidate whose length is not 3, the evaluator raises ValueError
  before anything else: no value is returned and the random source is returned as it
  was.
\<close>

theorem evaluate_invalid_shape:
  "configured self \<Longrightarrow> length candidate \<noteq> 3 \<Longrightarrow>
   evaluate_solution self candidate g = (Inl ValueError, g)"
  by (simp add: evaluate_solution_def configured_def)

theorem evaluate_invalid_shape_witness:
  "configured (init 0) \<and> length [10, 50 :: int] \<noteq> 3 \<and>
   evaluate_solution (init 0) [10, 50] example_source = (Inl ValueError, example_source)"
  using evaluate_invalid_shape[of "init 0" "[10, 50]" example_source]
  by (simp add: configured_init)

text \<open>
  Claim C4. For a feasible candidate of non-negative integers with \<open>purchase = 0\<close> (so
  both reserves are 0 too), the evaluator returns exactly 0, for every positive number of
  trials and every random source; it still consumes four variates per trial.
\<close>

theorem evaluate_no_purchase:
  assumes cfg: "configured self" and n: "0 < nb_simulations self" and ok: "rng_ok g"
    and c: "0 \<le> r3" "r3 \<le> r2" "r2 \<le> 0"
  shows "evaluate_solution self [0, r2, r3] g =
    (Inr 0, g\<lparr>pos := pos g + 4 * nat (nb_simulations self)\<rparr>)"
proof -
  have r: "r2 = 0" "r3 = 0" using c by simp_all
  have step: "\<exists>remaining sp'. period_loop self [0, 0, 0] X Y [0..<3] (0, sp) = Inr (remaining, sp') \<and> sp' = 0"
    if "0 \<le> X" "length Y = 3" "\<forall>y\<in>set Y. 0 \<le> y" "sp = 0" for X Y sp
    using period_loop_no_stock[OF cfg that(2,1,3), of 3 sp] that(4) by simp
  have "\<exists>sp'. simulation_loop self 0 [0, 0, 0] (nat (nb_simulations self)) 0 g =
       (Inr sp', g\<lparr>pos := pos g + 4 * nat (nb_simulations self)\<rparr>) \<and> sp' = 0"
    by (rule simulation_loop_invariant[where P = "\<lambda>sp. sp = 0", OF cfg step ok]) simp_all
  then have sim: "simulation_loop self 0 [0, 0, 0] (nat (nb_simulations self)) 0 g =
       (Inr 0, g\<lparr>pos := pos g + 4 * nat (nb_simulations self)\<rparr>)"
    by simp
  have "evaluate_solution self [0, 0, 0] g =
      (Inr 0, g\<lparr>pos := pos g + 4 * nat (nb_simulations self)\<rparr>)"
    using n by (simp add: evaluate_feasible_unfold[OF cfg] sim)
  then show ?thesis
    by (simp add: r)
qed

theorem evaluate_no_purchase_witness:
  "configured (init 0) \<and> 0 < nb_simulations (init 0) \<and> rng_ok example_source \<and>
   evaluate_solution (init 0) [0, 0, 0] example_source = (Inr 0, example_source\<lparr>pos := 400\<rparr>)"
  using evaluate_no_purchase[of "init 0" example_source 0 0]
  by (simp add: configured_init rng_ok_example_source) (simp add: init_def example_source_def)

text \<open>
  Claim C5. In a trial on a feasible candidate of non-negative integers, whatever \<open>X\<close>
  and \<open>Y\<close> were drawn: the periods before \<open>j\<close> run without error and leave a remaining
  stock that is not negative, the units sold in period \<open>j\<close> are at most that remaining
  stock, and the stock after period \<open>j\<close> is not negative either.
\<close>

theorem units_sold_bounded:
  assumes "configured self" "length Y = 3" "0 \<le> r3" "r3 \<le> r2" "r2 \<le> p" "j < 3"
  shows "\<exists>remaining sum_profit units_sold.
           period_loop self [r2, r3, 0] X Y [0..<j] (p, sp0) = Inr (remaining, sum_profit) \<and>
           period_sale self [r2, r3, 0] X Y j remaining = Inr units_sold \<and>
           0 \<le> remaining \<and> units_sold \<le> remaining \<and> 0 \<le> remaining - units_sold"
proof -
  have rs: "length [r2, r3, 0] = 3" by simp
  have nn: "\<forall>r\<in>set [r2, r3, 0]. 0 \<le> r" using assms by simp
  have p: "0 \<le> p" using assms by simp
  obtain remaining sum_profit where
    st: "period_loop self [r2, r3, 0] X Y [0..<j] (p, sp0) = Inr (remaining, sum_profit)"
    and r0: "0 \<le> remaining"
    using period_loop_remaining[OF assms(1,2) rs nn p, of j X sp0] assms(6) by auto
  have "0 \<le> [r2, r3, 0] ! j" using nth_nonneg[OF nn, of j] assms(6) by simp
  then have "min (max (remaining - [r2, r3, 0] ! j) 0)
             (py_int (real_of_int (mean_demands self ! j) * X * Y ! j)) \<le> remaining"
    using r0 by linarith
  then show ?thesis
    using st r0 period_sale_total[OF assms(1,2) rs assms(6), of X remaining]
    by simp
qed

theorem units_sold_bounded_witness:
  "configured (init 0) \<and> length [1 / 4, 1 / 4, 1 / 4 :: real] = 3 \<and>
   (0::int) \<le> 30 \<and> (30::int) \<le> 50 \<and> (50::int) \<le> 100 \<and> (1::nat) < 3 \<and>
   period_loop (init 0) [50, 30, 0] 1 [1 / 4, 1 / 4, 1 / 4] [0..<1] (100, 0) = Inr (88, 1200) \<and>
   period_sale (init 0) [50, 30, 0] 1 [1 / 4, 1 / 4, 1 / 4] 1 88 = Inr 5 \<and>
   (\<exists>remaining sum_profit units_sold.
      period_loop (init 0) [50, 30, 0] 1 [1 / 4, 1 / 4, 1 / 4] [0..<1] (100, 0) =
        Inr (remaining, sum_profit) \<and>
      period_sale (init 0) [50, 30, 0] 1 [1 / 4, 1 / 4, 1 / 4] 1 remaining = Inr units_sold \<and>
      0 \<le> remaining \<and> units_sold \<le> remaining \<and> 0 \<le> remaining - units_sold)"
proof -
  have len: "length [1 / 4, 1 / 4, 1 / 4 :: real] = 3" by simp
  have j: "(1::nat) < 3" by simp
  have c: "(0::int) \<le> 30" "(30::int) \<le> 50" "(50::int) \<le> 100" by simp_all
  show ?thesis
    using units_sold_bounded[OF configured_init len c j, of 0 1 0] configured_init[of 0] len
      example_period_0 example_period_1
    by simp
qed

text \<open>
  Claim C6. \<open>gamma_sample(scale)\<close> is meant to return a gamma variate of shape 1 and scale
  \<open>scale\<close>, that is an exponential variate of rate \<open>1/scale\<close>. The source passes the
  scale where the exponential generator expects the rate, so the two differ as soon as
  the scale is not 1: at scale 2 and the uniform variate \<open>1 - exp (-1)\<close> the source
  returns \<open>1/2\<close>, the gamma variate of scale 2 is \<open>2\<close>. (At scale 1, the only one the
  evaluator uses, they agree: \<open>gamma_sample_scale_1\<close>.)
\<close>

theorem gamma_sample_is_not_scale:
  "gamma_sample 2 example_source = (Inr (1 / 2), example_source\<lparr>pos := 1\<rparr>) \<and>
   spec_gamma_shape1 2 (fst (random_random example_source)) = 2"
  by (simp add: gamma_sample_def exponential_sample_def random_random_def example_source_def
      example_draws_def spec_gamma_shape1_def spec_exponential_def)

text \<open>
  Claim C7. For a rate above 0 and a uniform variate \<open>u\<close> in \<open>[0, 1)\<close>,
  \<open>exponential_sample\<close> returns exactly \<open>ln (1 - u) / (- rate)\<close>, without a domain error,
  and that number is not negative.
\<close>

theorem exponential_sample_value:
  "0 < rate \<Longrightarrow> random_random g = (u, g') \<Longrightarrow> 0 \<le> u \<Longrightarrow> u < 1 \<Longrightarrow>
   exponential_sample rate g = (Inr (ln (1 - u) / (- rate)), g') \<and> 0 \<le> ln (1 - u) / (- rate)"
  by (auto simp add: exponential_sample_def divide_le_0_iff)

theorem exponential_sample_value_witness:
  "(0::real) < 2 \<and> random_random example_source = (1 - exp (- 1), example_source\<lparr>pos := 1\<rparr>) \<and>
   (0::real) \<le> 1 - exp (- 1) \<and> 1 - exp (- 1) < (1::real) \<and>
   exponential_sample 2 example_source = (Inr (1 / 2), example_source\<lparr>pos := 1\<rparr>)"
proof -
  have r: "random_random example_source = (1 - exp (- 1), example_source\<lparr>pos := 1\<rparr>)"
    by (simp add: random_random_def example_source_def example_draws_def)
  have u: "(0::real) \<le> 1 - exp (- 1)" "1 - exp (- 1) < (1::real)" by simp_all
  have rate: "(0::real) < 2" by simp
  show ?thesis
    using exponential_sample_value[OF rate r u] r u by simp
qed

text \<open>
  Claim C8. The evaluator does not seed the random source: its result does not depend
  on the stored seed, and two calls on the same candidate whose random sources will
  return the same variates give the same result (value or exception) and leave random
  sources that again will return the same variates.
\<close>

theorem evaluate_deterministic:
  assumes "same_stream g1 g2"
  shows "\<exists>result h1 h2.
           evaluate_solution (self\<lparr>seed := s1\<rparr>) candidate g1 = (result, h1) \<and>
           evaluate_solution (self\<lparr>seed := s2\<rparr>) candidate g2 = (result, h2) \<and>
           same_stream h1 h2"
proof -
  let ?k = "nat (nb_simulations self)"
  let ?r = "drop 1 candidate @ [0]"
  have sim: "\<exists>a h1 h2. simulation_loop (self\<lparr>seed := s1\<rparr>) p ?r ?k 0 g1 = (a, h1) \<and>
     simulation_loop (self\<lparr>seed := s2\<rparr>) p ?r ?k 0 g2 = (a, h2) \<and> same_stream h1 h2" for p
    by (rule simulation_loop_same[OF assms])
  show ?thesis
  proof (cases "int (length candidate) \<noteq> nb_periods self")
    case True
    then show ?thesis using assms by (simp add: evaluate_solution_def)
  next
    case len: False
    show ?thesis
    proof (cases "getitem candidate 0")
      case (Inl err)
      then show ?thesis using assms len by (simp add: evaluate_solution_def)
    next
      case p: (Inr p)
      obtain a h1 h2 where l: "simulation_loop (self\<lparr>seed := s1\<rparr>) p ?r ?k 0 g1 = (a, h1)"
        "simulation_loop (self\<lparr>seed := s2\<rparr>) p ?r ?k 0 g2 = (a, h2)" and h: "same_stream h1 h2"
        using sim[of p] by blast
      show ?thesis
      proof (cases "infeasible candidate")
        case (Inl err)
        then show ?thesis using assms len p by (simp add: evaluate_solution_def)
      next
        case (Inr b)
        show ?thesis
        proof (cases b)
          case True
          then show ?thesis using assms len p Inr by (simp add: evaluate_solution_def)
        next
          case False
          then show ?thesis
            using len p Inr l h by (cases a) (simp_all add: evaluate_solution_def)
        qed
      qed
    qed
  qed
qed

theorem evaluate_deterministic_witness:
  "same_stream example_source (example_source\<lparr>pos := 4\<rparr>) \<and>
   (\<exists>result h1 h2.
      evaluate_solution ((init 0)\<lparr>seed := 1\<rparr>) [100, 50, 30] example_source = (result, h1) \<and>
      evaluate_solution ((init 0)\<lparr>seed := 2\<rparr>) [100, 50, 30] (example_source\<lparr>pos := 4\<rparr>) =
        (result, h2) \<and>
      same_stream h1 h2)"
  using evaluate_deterministic[OF same_stream_example, where self = "init 0" and ?s1.0 = 1
      and candidate = "[100, 50, 30]" and ?s2.0 = 2]
    same_stream_example
  by simp

text \<open>
  Claim C9. Every candidate \<open>random_solution\<close> returns is a list \<open>[purchase, reserve2,
  reserve3]\<close> with \<open>0 \<le> reserve3 \<le> reserve2 \<le> purchase \<le> 100\<close>, whatever variates the
  random source returns.
\<close>

theorem random_solution_feasible:
  assumes "rng_ok g"
  shows "\<exists>p r2 r3 g'. random_solution self g = (Inr [p, r2, r3], g') \<and>
           0 \<le> r3 \<and> r3 \<le> r2 \<and> r2 \<le> p \<and> p \<le> 100"
proof -
  obtain p where p: "randint 0 100 g = (Inr p, g\<lparr>pos := pos g + 1\<rparr>)" "0 \<le> p" "p \<le> 100"
    using randint_range[of 0 100 g] assms by auto
  obtain r2 where r2: "randint 0 p (g\<lparr>pos := pos g + 1\<rparr>) = (Inr r2, g\<lparr>pos := pos g + 2\<rparr>)" "0 \<le> r2" "r2 \<le> p"
    using randint_range[of 0 p "g\<lparr>pos := pos g + 1\<rparr>"] assms p by auto
  obtain r3 where r3: "randint 0 r2 (g\<lparr>pos := pos g + 2\<rparr>) = (Inr r3, g\<lparr>pos := pos g + 3\<rparr>)" "0 \<le> r3" "r3 \<le> r2"
    using randint_range[of 0 r2 "g\<lparr>pos := pos g + 2\<rparr>"] assms r2 by auto
  show ?thesis using p r2 r3 by (simp add: random_solution_def)
qed

theorem random_solution_feasible_witness:
  "rng_ok half_source \<and>
   random_solution (init 0) half_source = (Inr [50, 25, 13], half_source\<lparr>pos := 3\<rparr>) \<and>
   (\<exists>p r2 r3 g'. random_solution (init 0) half_source = (Inr [p, r2, r3], g') \<and>
      0 \<le> r3 \<and> r3 \<le> r2 \<and> r2 \<le> p \<and> p \<le> 100)"
proof -
  have "random_solution (init 0) half_source = (Inr [50, 25, 13], half_source\<lparr>pos := 3\<rparr>)"
    by (simp add: random_solution_def randint_def random_random_def half_source_def)
  then show ?thesis
    using random_solution_feasible[OF rng_ok_half_source, of "init 0"] rng_ok_half_source
    by simp
qed

text \<open>
  Claim C10. For a feasible candidate of non-negative integers with \<open>purchase \<le> 100\<close>,
  a positive number of trials and every random source, the evaluator returns a value
  that is at least \<open>- purchase_price * purchase\<close>, hence at least \<open>-8000\<close>, hence above
  the penalty \<open>-1e9\<close>.
\<close>

theorem evaluate_lower_bound:
  assumes cfg: "configured self" and n: "0 < nb_simulations self" and ok: "rng_ok g"
    and c: "0 \<le> r3" "r3 \<le> r2" "r2 \<le> p" "p \<le> 100"
  shows "\<exists>v. evaluate_solution self [p, r2, r3] g =
               (Inr v, g\<lparr>pos := pos g + 4 * nat (nb_simulations self)\<rparr>) \<and>
             - real_of_int (purchase_price self * p) \<le> v \<and> - 8000 \<le> v \<and> - 1000000000 < v"
proof -
  have step: "\<exists>remaining sp'. period_loop self [r2, r3, 0] X Y [0..<3] (p, sp) = Inr (remaining, sp') \<and> 0 \<le> sp'"
    if hX: "0 \<le> X" and hY: "length Y = 3" and hYnn: "\<forall>y\<in>set Y. 0 \<le> y" and hsp: "0 \<le> sp"
    for X Y sp
  proof -
    obtain remaining sp' where
      "period_loop self [r2, r3, 0] X Y [0..<3] (p, sp) = Inr (remaining, sp')" "sp \<le> sp'"
      using period_loop_profit_mono[OF cfg hY _ hX hYnn, of "[r2, r3, 0]" 3 p sp] by auto
    then show ?thesis using hsp by simp
  qed
  have "\<exists>sp'. simulation_loop self p [r2, r3, 0] (nat (nb_simulations self)) 0 g =
       (Inr sp', g\<lparr>pos := pos g + 4 * nat (nb_simulations self)\<rparr>) \<and> 0 \<le> sp'"
    by (rule simulation_loop_invariant[where P = "\<lambda>sp. 0 \<le> sp", OF cfg step ok]) simp_all
  then obtain sp' where
    sim: "simulation_loop self p [r2, r3, 0] (nat (nb_simulations self)) 0 g =
       (Inr sp', g\<lparr>pos := pos g + 4 * nat (nb_simulations self)\<rparr>)" and sp': "0 \<le> sp'"
    by blast
  have mean: "0 \<le> sp' / real_of_int (nb_simulations self)"
    using sp' n by simp
  have "purchase_price self * p \<le> 8000"
    using cfg c by (simp add: configured_def)
  then have cost: "real_of_int (purchase_price self * p) \<le> 8000"
    by linarith
  have ev: "evaluate_solution self [p, r2, r3] g =
      (Inr (sp' / real_of_int (nb_simulations self) - real_of_int (purchase_price self * p)),
       g\<lparr>pos := pos g + 4 * nat (nb_simulations self)\<rparr>)"
    using n by (simp add: evaluate_feasible_unfold[OF cfg c(3,2)] sim)
  show ?thesis
    unfolding ev using mean cost by simp
qed

theorem evaluate_lower_bound_witness:
  "configured (init 0) \<and> 0 < nb_simulations (init 0) \<and> rng_ok example_source \<and>
   (\<exists>v. evaluate_solution (init 0) [100, 50, 30] example_source =
          (Inr v, example_source\<lparr>pos := pos example_source + 4 * nat (nb_simulations (init 0))\<rparr>) \<and>
        - real_of_int (purchase_price (init 0) * 100) \<le> v \<and> - 8000 \<le> v \<and> - 1000000000 < v)"
proof -
  have n: "0 < nb_simulations (init 0)" by (simp add: init_def)
  have c: "(0::int) \<le> 30" "(30::int) \<le> 50" "(50::int) \<le> 100" "(100::int) \<le> 100" by simp_all
  show ?thesis
    using evaluate_lower_bound[OF configured_init n rng_ok_example_source c] configured_init[of 0]
      n rng_ok_example_source
    by blast
qed

end
